theory Spec2Isabelle
  imports Main "HOL-Library.Char_ord" "HOL-Library.List_Lexorder" "HOL-Library.AList"
begin

section \<open>Go strings and maps\<close>

text \<open>
  A Go \<^verbatim>\<open>string\<close> is a sequence of bytes, so it is modelled as \<^typ>\<open>string\<close> (a list of
  8-bit characters). Go compares strings byte by byte; this is the lexicographic order
  on lists over the order of characters by their code.

  A Go \<^verbatim>\<open>map[string]string\<close> is modelled as an association list. The order of the
  list is the order in which one \<^verbatim>\<open>for k, v := range m\<close> happens to visit the entries
  (Go leaves that order open), so a statement for all lists is a statement for all
  iteration orders. The keys of a Go map are distinct.
\<close>

type_synonym gomap = "(string \<times> string) list"

text \<open>Reading \<^verbatim>\<open>m[k]\<close>: the value stored under exactly \<^verbatim>\<open>k\<close>, and the zero value
  \<^verbatim>\<open>""\<close> when there is none.\<close>

definition index :: "gomap \<Rightarrow> string \<Rightarrow> string" where
  "index m k = (case map_of m k of None \<Rightarrow> [] | Some v \<Rightarrow> v)"

text \<open>Writing \<^verbatim>\<open>m[k] = v\<close>.\<close>

definition assign :: "gomap \<Rightarrow> string \<Rightarrow> string \<Rightarrow> gomap" where
  "assign m k v = AList.update k v m"

definition newline :: char where
  "newline = CHR 0x0A"

subsection \<open>Package strings\<close>

text \<open>
  \<^verbatim>\<open>strings.ToLower\<close> and \<^verbatim>\<open>strings.TrimSpace\<close> are modelled on ASCII, which is what a
  header name consists of: the letters \<^verbatim>\<open>A\<close> to \<^verbatim>\<open>Z\<close> are mapped to \<^verbatim>\<open>a\<close> to \<^verbatim>\<open>z\<close>, and
  the white space removed at both ends is tab, line feed, vertical tab, form feed,
  carriage return and space. Bytes from 0x80 on are left as they are.
\<close>

text \<open>The test \<^verbatim>\<open>lo <= c && c <= hi\<close> on bytes.\<close>

definition inRange :: "char \<Rightarrow> char \<Rightarrow> char \<Rightarrow> bool" where
  "inRange c lo hi \<longleftrightarrow> lo \<le> c \<and> c \<le> hi"

definition isUpper :: "char \<Rightarrow> bool" where
  "isUpper c \<longleftrightarrow> inRange c CHR ''A'' CHR ''Z''"

definition toLowerByte :: "char \<Rightarrow> char" where
  "toLowerByte c = (if isUpper c then char_of (of_char c + (32::nat)) else c)"

definition ToLower :: "string \<Rightarrow> string" where
  "ToLower s = map toLowerByte s"

definition isSpace :: "char \<Rightarrow> bool" where
  "isSpace c \<longleftrightarrow> c = CHR 0x09 \<or> c = CHR 0x0A \<or> c = CHR 0x0B \<or> c = CHR 0x0C
     \<or> c = CHR 0x0D \<or> c = CHR 0x20"

definition TrimSpace :: "string \<Rightarrow> string" where
  "TrimSpace s = rev (dropWhile isSpace (rev (dropWhile isSpace s)))"

fun HasPrefix :: "string \<Rightarrow> string \<Rightarrow> bool" where
  "HasPrefix s [] = True"
| "HasPrefix [] (p # ps) = False"
| "HasPrefix (c # cs) (p # ps) = (c = p \<and> HasPrefix cs ps)"

section \<open>The canonical header block\<close>

text \<open>
  \<^verbatim>\<open>baseSigner.canonicalHeader\<close>. The first loop fills the map \<^verbatim>\<open>cm\<close> with the headers
  whose name, lower-cased and trimmed, starts with \<^verbatim>\<open>x-ms-\<close>, under that normalised name.
\<close>

fun collectHeaders :: "gomap \<Rightarrow> gomap \<Rightarrow> gomap" where
  "collectHeaders [] cm = cm"
| "collectHeaders ((k, v) # headers) cm =
     (let headerName = TrimSpace (ToLower k)
      in if HasPrefix headerName ''x-ms-''
         then collectHeaders headers (assign cm headerName v)
         else collectHeaders headers cm)"

text \<open>The last loop: every line but the last one ends with a line feed.\<close>

fun writeHeaders :: "string list \<Rightarrow> gomap \<Rightarrow> nat \<Rightarrow> string list \<Rightarrow> string \<Rightarrow> string" where
  "writeHeaders keys cm i [] ch = ch"
| "writeHeaders keys cm i (key # rest) ch =
     (if int i = int (length keys) - 1
      then writeHeaders keys cm (Suc i) rest (ch @ key @ '':'' @ index cm key)
      else writeHeaders keys cm (Suc i) rest (ch @ key @ '':'' @ index cm key @ [newline]))"

definition canonicalHeader :: "gomap \<Rightarrow> string" where
  "canonicalHeader headers =
     (let cm = collectHeaders headers []
      in if length cm = 0 then []
         else let keys = sort (map fst cm)
              in writeHeaders keys cm 0 keys [])"

text \<open>
  The header block in the words of the specification: take the headers whose
  normalised name begins with \<^verbatim>\<open>x-ms-\<close>, sort the names, and join the lines
  \<^verbatim>\<open>name:value\<close> with a line feed between two lines and none after the last. The
  normalised name is the name lower-cased and then trimmed. Where several headers have
  the same normalised name, the value of the one visited last stands.
\<close>

definition headerName :: "string \<Rightarrow> string" where
  "headerName k = TrimSpace (ToLower k)"

definition matching :: "gomap \<Rightarrow> gomap" where
  "matching headers =
     map (\<lambda>(k, v). (headerName k, v))
       (filter (\<lambda>(k, v). HasPrefix (headerName k) ''x-ms-'') headers)"

definition keptNames :: "gomap \<Rightarrow> string list" where
  "keptNames headers = sort (remdups (map fst (matching headers)))"

definition lastValue :: "gomap \<Rightarrow> string \<Rightarrow> string" where
  "lastValue headers name = index (rev (matching headers)) name"

fun joinLines :: "string list \<Rightarrow> string" where
  "joinLines [] = []"
| "joinLines [l] = l"
| "joinLines (l # m # ls) = l @ [newline] @ joinLines (m # ls)"

section \<open>Package net/url\<close>

text \<open>
  The signer calls \<^verbatim>\<open>url.QueryEscape\<close>, \<^verbatim>\<open>url.ParseQuery\<close>, \<^verbatim>\<open>Values.Get\<close>, \<^verbatim>\<open>Values.Set\<close> and
  \<^verbatim>\<open>Values.Encode\<close> of Go's standard library. They are modelled here after the library's
  source, in the query-component mode that these entry points use. A segment of the
  query string with a semicolon is refused, as the library does since Go 1.17; before,
  the semicolon was a second separator. The properties of the signer do not depend on
  the choice: their proofs use only the values and the error that the parse returns,
  and the examples have no semicolon.
\<close>

definition isAlnum :: "char \<Rightarrow> bool" where
  "isAlnum c \<longleftrightarrow> inRange c CHR ''a'' CHR ''z'' \<or> inRange c CHR ''A'' CHR ''Z''
     \<or> inRange c CHR ''0'' CHR ''9''"

text \<open>\<^verbatim>\<open>shouldEscape(c, encodeQueryComponent)\<close>: letters, digits and the four marks
  \<^verbatim>\<open>- _ . ~\<close> are left alone, everything else is escaped.\<close>

definition shouldEscape :: "char \<Rightarrow> bool" where
  "shouldEscape c =
     (if isAlnum c then False
      else if c = CHR ''-'' \<or> c = CHR ''_'' \<or> c = CHR ''.'' \<or> c = CHR ''~'' then False
      else True)"

definition upperhex :: string where
  "upperhex = ''0123456789ABCDEF''"

definition escapeByte :: "char \<Rightarrow> string" where
  "escapeByte c =
     (if c = CHR '' '' then ''+''
      else if shouldEscape c
           then [CHR ''%'', upperhex ! (of_char c div 16), upperhex ! (of_char c mod 16)]
           else [c])"

definition QueryEscape :: "string \<Rightarrow> string" where
  "QueryEscape s = concat (map escapeByte s)"

datatype urlError = EscapeError string | InvalidSemicolon

definition ishex :: "char \<Rightarrow> bool" where
  "ishex c \<longleftrightarrow> inRange c CHR ''0'' CHR ''9'' \<or> inRange c CHR ''a'' CHR ''f''
     \<or> inRange c CHR ''A'' CHR ''F''"

definition unhex :: "char \<Rightarrow> nat" where
  "unhex c =
     (if inRange c CHR ''0'' CHR ''9'' then of_char c - of_char CHR ''0''
      else if inRange c CHR ''a'' CHR ''f'' then of_char c - of_char CHR ''a'' + 10
      else if inRange c CHR ''A'' CHR ''F'' then of_char c - of_char CHR ''A'' + 10
      else 0)"

text \<open>\<^verbatim>\<open>url.QueryUnescape\<close>: a \<^verbatim>\<open>%\<close> must be followed by two hexadecimal digits, otherwise
  the call fails with the offending three bytes (or fewer, at the end); \<^verbatim>\<open>+\<close> is a space.\<close>

fun QueryUnescape :: "string \<Rightarrow> urlError + string" where
  "QueryUnescape [] = Inr []"
| "QueryUnescape (c # s) =
     (if c = CHR ''%'' then
        (case s of
           h1 # h2 # rest \<Rightarrow>
             if ishex h1 \<and> ishex h2
             then (case QueryUnescape rest of
                     Inl e \<Rightarrow> Inl e
                   | Inr t \<Rightarrow> Inr (char_of (unhex h1 * 16 + unhex h2) # t))
             else Inl (EscapeError (take 3 (c # s)))
         | _ \<Rightarrow> Inl (EscapeError (take 3 (c # s))))
      else (case QueryUnescape s of
              Inl e \<Rightarrow> Inl e
            | Inr t \<Rightarrow> Inr ((if c = CHR ''+'' then CHR '' '' else c) # t)))"

text \<open>\<^verbatim>\<open>url.Values\<close> is a \<^verbatim>\<open>map[string][]string\<close>.\<close>

type_synonym Values = "(string \<times> string list) list"

definition valuesAt :: "Values \<Rightarrow> string \<Rightarrow> string list" where
  "valuesAt v key = (case map_of v key of None \<Rightarrow> [] | Some vs \<Rightarrow> vs)"

definition Get :: "Values \<Rightarrow> string \<Rightarrow> string" where
  "Get v key = (case valuesAt v key of [] \<Rightarrow> [] | x # _ \<Rightarrow> x)"

definition Set :: "Values \<Rightarrow> string \<Rightarrow> string \<Rightarrow> Values" where
  "Set v key val = AList.update key [val] v"

text \<open>\<^verbatim>\<open>strings.Cut\<close> with a separator of one byte.\<close>

definition Cut :: "string \<Rightarrow> char \<Rightarrow> string \<times> string" where
  "Cut s sep = (takeWhile (\<lambda>c. c \<noteq> sep) s, drop 1 (dropWhile (\<lambda>c. c \<noteq> sep) s))"

text \<open>
  One round of the loop of \<^verbatim>\<open>parseQuery\<close>, for the segment \<^verbatim>\<open>key\<close> cut off at the next
  \<^verbatim>\<open>&\<close>: a segment with a semicolon sets the error, an empty segment is skipped, a
  segment whose key or value does not unescape sets the error unless one is set already,
  and any other segment is appended to the values of its key.
\<close>

definition parseSegment :: "Values \<Rightarrow> urlError option \<Rightarrow> string \<Rightarrow> Values \<times> urlError option" where
  "parseSegment m err key =
     (if CHR '';'' \<in> set key then (m, Some InvalidSemicolon)
      else if key = [] then (m, err)
      else (case QueryUnescape (fst (Cut key CHR ''='')) of
              Inl err1 \<Rightarrow> (m, if err = None then Some err1 else err)
            | Inr k \<Rightarrow>
                (case QueryUnescape (snd (Cut key CHR ''='')) of
                   Inl err1 \<Rightarrow> (m, if err = None then Some err1 else err)
                 | Inr val \<Rightarrow> (AList.update k (valuesAt m k @ [val]) m, err))))"

function parseQuery :: "Values \<Rightarrow> urlError option \<Rightarrow> string \<Rightarrow> Values \<times> urlError option" where
  "parseQuery m err query =
     (if query = [] then (m, err)
      else parseQuery (fst (parseSegment m err (fst (Cut query CHR ''&''))))
             (snd (parseSegment m err (fst (Cut query CHR ''&''))))
             (snd (Cut query CHR ''&'')))"
  by pat_completeness auto
termination
proof (relation "measure (\<lambda>(m, err, query). length query)")
  show "wf (measure (\<lambda>(m, err, query). length query))"
    by simp
next
  fix m :: Values and err :: "urlError option" and query :: string
  assume "query \<noteq> []"
  moreover have "length (dropWhile (\<lambda>c. c \<noteq> CHR ''&'') query) \<le> length query"
    by (rule length_dropWhile_le)
  ultimately have "length (snd (Cut query CHR ''&'')) < length query"
    by (cases query) (auto simp: Cut_def)
  then show "((fst (parseSegment m err (fst (Cut query CHR ''&''))),
               snd (parseSegment m err (fst (Cut query CHR ''&''))),
               snd (Cut query CHR ''&'')), m, err, query)
             \<in> measure (\<lambda>(m, err, query). length query)"
    by simp
qed

declare parseQuery.simps [simp del]

definition ParseQuery :: "string \<Rightarrow> Values \<times> urlError option" where
  "ParseQuery query = parseQuery [] None query"

text \<open>\<^verbatim>\<open>Values.Encode\<close>: the keys in sorted order, each value as \<^verbatim>\<open>key=value\<close> with both
  sides escaped, and \<^verbatim>\<open>&\<close> before every pair but the first.\<close>

fun encodeValues :: "string \<Rightarrow> string list \<Rightarrow> string \<Rightarrow> string" where
  "encodeValues keyEscaped [] buf = buf"
| "encodeValues keyEscaped (v # vs) buf =
     encodeValues keyEscaped vs
       ((if length buf > 0 then buf @ ''&'' else buf) @ keyEscaped @ ''='' @ QueryEscape v)"

fun encodeKeys :: "Values \<Rightarrow> string list \<Rightarrow> string \<Rightarrow> string" where
  "encodeKeys v [] buf = buf"
| "encodeKeys v (k # keys) buf =
     encodeKeys v keys (encodeValues (QueryEscape k) (valuesAt v k) buf)"

definition Encode :: "Values \<Rightarrow> string" where
  "Encode v = encodeKeys v (sort (map fst v)) []"

section \<open>The canonical resource\<close>

text \<open>Of a \<^verbatim>\<open>url.URL\<close> the signer reads the decoded path and the raw query string.\<close>

record URL =
  Path :: string
  RawQuery :: string

record baseSigner =
  accountName :: string

text \<open>
  \<^verbatim>\<open>baseSigner.encodeComponents\<close>. The loop visits the characters of the path; a letter, a
  digit or one of \<^verbatim>\<open>/ , $ =\<close> is appended as it is, and any other character is appended
  as \<^verbatim>\<open>url.QueryEscape\<close> returns it. The path is read byte by byte: on valid UTF-8 this is
  what the loop over code points does, since \<^verbatim>\<open>QueryEscape\<close> escapes every byte of a
  code point beyond ASCII.
\<close>

fun encodeLoop :: "string \<Rightarrow> string \<Rightarrow> string" where
  "encodeLoop [] out = out"
| "encodeLoop (c # path) out =
     (if inRange c CHR ''a'' CHR ''z'' then encodeLoop path (out @ [c])
      else if inRange c CHR ''A'' CHR ''Z'' then encodeLoop path (out @ [c])
      else if inRange c CHR ''0'' CHR ''9'' then encodeLoop path (out @ [c])
      else if c = CHR ''/'' \<or> c = CHR '','' \<or> c = CHR ''$'' \<or> c = CHR ''=''
        then encodeLoop path (out @ [c])
      else encodeLoop path (out @ QueryEscape [c]))"

definition encodeComponents :: "string \<Rightarrow> string" where
  "encodeComponents path = encodeLoop path []"

text \<open>The error of \<^verbatim>\<open>canonicalResource\<close> wraps the error of \<^verbatim>\<open>url.ParseQuery\<close>; the string
  returned beside it is empty and is not modelled.\<close>

datatype signError = ParsingError urlError

definition canonicalResource :: "baseSigner \<Rightarrow> URL \<Rightarrow> signError + string" where
  "canonicalResource b resourceURL =
     (let cr = ''/'' @ accountName b @ encodeComponents (Path resourceURL);
          params = fst (ParseQuery (RawQuery resourceURL));
          err = snd (ParseQuery (RawQuery resourceURL))
      in case err of
           Some e \<Rightarrow> Inl (ParsingError e)
         | None \<Rightarrow>
             if Get params ''comp'' \<noteq> []
             then Inr (cr @ ''?'' @ Encode (Set [] ''comp'' (Get params ''comp'')))
             else Inr cr)"


section \<open>The strings to sign\<close>

text \<open>\<^verbatim>\<open>blobQueueSigner.canonicalizedString\<close> and \<^verbatim>\<open>tableSigner.canonicalizedString\<close>; both
  signers embed a \<^verbatim>\<open>baseSigner\<close>.\<close>

definition blobQueueSigner_canonicalizedString ::
    "baseSigner \<Rightarrow> string \<Rightarrow> gomap \<Rightarrow> URL \<Rightarrow> signError + string" where
  "blobQueueSigner_canonicalizedString s verb headers resourceURL =
     (let cHeader = canonicalHeader headers
      in case canonicalResource s resourceURL of
           Inl err \<Rightarrow> Inl err
         | Inr cRes \<Rightarrow>
             Inr (verb @ [newline] @ index headers ''Content-MD5'' @ [newline]
                  @ index headers ''Content-Type'' @ [newline]
                  @ index headers ''Date'' @ [newline]
                  @ cHeader @ [newline] @ cRes))"

definition tableSigner_canonicalizedString ::
    "baseSigner \<Rightarrow> string \<Rightarrow> gomap \<Rightarrow> URL \<Rightarrow> signError + string" where
  "tableSigner_canonicalizedString s verb headers resourceURL =
     (case canonicalResource s resourceURL of
        Inl err \<Rightarrow> Inl err
      | Inr cRes \<Rightarrow> Inr (index headers ''x-ms-date'' @ [newline] @ cRes))"

section \<open>Package encoding/json\<close>

text \<open>
  The entities are written with \<^verbatim>\<open>json.MarshalIndent(m, "", "\t")\<close> on a map from keys to
  JSON literal values (the entity types ask for literal values, not objects or arrays).
  A literal is a string, a number (kept as the text the encoder writes for it), a
  boolean or \<^verbatim>\<open>null\<close>. The encoder writes the members of a map in the order of their
  keys, one per line behind one tab, and \<^verbatim>\<open>{}\<close> for a map without members. In a string
  it escapes the quote and the backslash with a backslash, writes line feed, carriage
  return and tab as \<^verbatim>\<open>\n\<close>, \<^verbatim>\<open>\r\<close> and \<^verbatim>\<open>\t\<close>, and writes the other control characters and
  \<^verbatim>\<open><\<close>, \<^verbatim>\<open>>\<close>, \<^verbatim>\<open>&\<close> as \<^verbatim>\<open>\u00\<close> followed by two hexadecimal digits; bytes from 0x80 on
  are copied, which is what the encoder does on valid UTF-8 other than the two code
  points U+2028 and U+2029. An entity is a record of keys and values, so a map value
  is meant throughout: the nil map, which the encoder writes as \<^verbatim>\<open>null\<close>, is left out.
\<close>

datatype jsonLiteral = JString string | JNumber string | JBool bool | JNull

type_synonym jsonObject = "(string \<times> jsonLiteral) list"

definition hex :: string where
  "hex = ''0123456789abcdef''"

definition quoteByte :: "char \<Rightarrow> string" where
  "quoteByte c =
     (if c = CHR 0x5C \<or> c = CHR 0x22 then [CHR 0x5C, c]
      else if c = CHR 0x0A then [CHR 0x5C, CHR ''n'']
      else if c = CHR 0x0D then [CHR 0x5C, CHR ''r'']
      else if c = CHR 0x09 then [CHR 0x5C, CHR ''t'']
      else if c < CHR 0x20 \<or> c = CHR ''<'' \<or> c = CHR ''>'' \<or> c = CHR ''&''
        then [CHR 0x5C] @ ''u00'' @ [hex ! (of_char c div 16), hex ! (of_char c mod 16)]
      else [c])"

definition jsonString :: "string \<Rightarrow> string" where
  "jsonString s = [CHR 0x22] @ concat (map quoteByte s) @ [CHR 0x22]"

fun encodeLiteral :: "jsonLiteral \<Rightarrow> string" where
  "encodeLiteral (JString s) = jsonString s"
| "encodeLiteral (JNumber t) = t"
| "encodeLiteral (JBool b) = (if b then ''true'' else ''false'')"
| "encodeLiteral JNull = ''null''"

definition objectMember :: "string \<times> jsonLiteral \<Rightarrow> string" where
  "objectMember kv = [CHR 0x09] @ jsonString (fst kv) @ '': '' @ encodeLiteral (snd kv)"

fun joinMembers :: "string list \<Rightarrow> string" where
  "joinMembers [] = []"
| "joinMembers [l] = l"
| "joinMembers (l # m # ls) = l @ '','' @ [newline] @ joinMembers (m # ls)"

definition MarshalIndent :: "jsonObject \<Rightarrow> string" where
  "MarshalIndent m =
     (if m = [] then ''{}''
      else ''{'' @ [newline] @ joinMembers (map objectMember (sort_key fst m))
           @ [newline] @ ''}'')"

section \<open>Table entities\<close>

datatype entityError = NilStructValue | NotAStruct | JSONError string


text \<open>
  \<^verbatim>\<open>StructTableEntity\<close> wraps a value of any type, or none. Of the value the serializer
  reads, by reflection, the kind of its type and, for a struct, the declared fields with
  their names and tags. A struct tag is a map from tag keys to strings, and
  \<^verbatim>\<open>Tag.Get\<close> of a key that the tag does not have is the empty string.
\<close>

datatype Kind = Struct | Ptr | OtherKind

record StructField =
  Name :: string
  Tag :: gomap

record goValue =
  typeKind :: Kind
  typeFields :: "StructField list"

text \<open>\<^verbatim>\<open>StructTableEntity.jsonName\<close>; \<^verbatim>\<open>strings.Split(jTag, ",")[0]\<close> is the part of the tag
  before its first comma.\<close>

definition jsonName :: "StructField \<Rightarrow> string" where
  "jsonName f =
     (let jTag = index (Tag f) ''json''
      in if jTag \<noteq> [] then takeWhile (\<lambda>c. c \<noteq> CHR '','') jTag else Name f)"

text \<open>Step 3, the scan of the fields for the \<^verbatim>\<open>odata.type\<close> tag.\<close>

fun scanFields :: "StructField list \<Rightarrow> gomap \<Rightarrow> gomap" where
  "scanFields [] extras = extras"
| "scanFields (f # fs) extras =
     (let tagVal = index (Tag f) ''odata.type''
      in if tagVal \<noteq> []
         then scanFields fs (assign extras (jsonName f @ ''@odata.type'') tagVal)
         else scanFields fs extras)"

text \<open>Step 4, the tags added to the map.\<close>

fun addTags :: "gomap \<Rightarrow> jsonObject \<Rightarrow> jsonObject" where
  "addTags [] m = m"
| "addTags ((k, v) # extras) m = addTags extras (AList.update k (JString v) m)"

text \<open>The sidecar entries in the words of the specification: for every field with an
  annotation, the resolved name followed by \<^verbatim>\<open>@odata.type\<close>, and the annotation.\<close>

definition sidecars :: "StructField list \<Rightarrow> gomap" where
  "sidecars fs =
     map (\<lambda>f. (jsonName f @ ''@odata.type'', index (Tag f) ''odata.type''))
       (filter (\<lambda>f. index (Tag f) ''odata.type'' \<noteq> []) fs)"

text \<open>
  \<^verbatim>\<open>StructTableEntity.jsonMarshal\<close>. Steps 1 and 2 call \<^verbatim>\<open>json.Marshal\<close> on the wrapped value
  and \<^verbatim>\<open>json.Unmarshal\<close> into a map; the two library functions are parameters of the
  model, each returning its error or its result.
\<close>

definition StructTableEntity_jsonMarshal ::
    "(goValue \<Rightarrow> string + string) \<Rightarrow> (string \<Rightarrow> string + jsonObject)
      \<Rightarrow> goValue option \<Rightarrow> entityError + string" where
  "StructTableEntity_jsonMarshal Marshal Unmarshal Val =
     (case Val of
        None \<Rightarrow> Inl NilStructValue
      | Some v \<Rightarrow>
          if typeKind v \<noteq> Struct then Inl NotAStruct
          else (case Marshal v of
                  Inl err \<Rightarrow> Inl (JSONError err)
                | Inr b \<Rightarrow>
                    (case Unmarshal b of
                       Inl err \<Rightarrow> Inl (JSONError err)
                     | Inr m \<Rightarrow>
                         Inr (MarshalIndent (addTags (scanFields (typeFields v) []) m)))))"

section \<open>Service errors\<close>







section \<open>Properties of the canonical header block\<close>

lemma collectHeaders_Cons:
  "collectHeaders ((k, v) # hs) cm =
     (if HasPrefix (headerName k) ''x-ms-'' then collectHeaders hs (assign cm (headerName k) v)
      else collectHeaders hs cm)"
  by (simp add: headerName_def)

lemma matching_Cons:
  "matching ((k, v) # hs) =
     (if HasPrefix (headerName k) ''x-ms-'' then (headerName k, v) # matching hs
      else matching hs)"
  by (simp add: matching_def)

text \<open>The map \<^verbatim>\<open>cm\<close> after the first loop: its content, its keys, and that its keys are
  distinct.\<close>

lemma map_of_collectHeaders:
  "map_of (collectHeaders hs cm) = map_of (rev (matching hs) @ cm)"
proof (induction hs arbitrary: cm)
  case Nil
  show ?case by (simp add: matching_def)
next
  case (Cons h hs)
  obtain k v where h: "h = (k, v)" by (cases h)
  show ?case
    unfolding h collectHeaders_Cons matching_Cons
    by (simp add: Cons.IH assign_def update_conv' map_add_def fun_eq_iff split: option.split)
qed

lemma keys_collectHeaders:
  "fst ` set (collectHeaders hs cm) = fst ` set cm \<union> fst ` set (matching hs)"
proof (induction hs arbitrary: cm)
  case Nil
  show ?case by (simp add: matching_def)
next
  case (Cons h hs)
  obtain k v where h: "h = (k, v)" by (cases h)
  show ?case
    unfolding h collectHeaders_Cons matching_Cons
    by (simp add: Cons.IH assign_def dom_update)
qed

lemma distinct_collectHeaders:
  "distinct (map fst cm) \<Longrightarrow> distinct (map fst (collectHeaders hs cm))"
proof (induction hs arbitrary: cm)
  case Nil
  then show ?case by simp
next
  case (Cons h hs)
  obtain k v where h: "h = (k, v)" by (cases h)
  show ?case
    unfolding h collectHeaders_Cons
    using Cons.prems by (simp add: Cons.IH assign_def distinct_update)
qed

lemma keys_sorted: "sort (map fst (collectHeaders hs [])) = keptNames hs"
proof (rule sorted_distinct_set_unique)
  show "sorted (sort (map fst (collectHeaders hs [])))" by simp
  show "distinct (sort (map fst (collectHeaders hs [])))"
    by (simp add: distinct_collectHeaders)
  show "sorted (keptNames hs)" by (simp add: keptNames_def)
  show "distinct (keptNames hs)" by (simp add: keptNames_def)
  show "set (sort (map fst (collectHeaders hs []))) = set (keptNames hs)"
    by (simp add: keptNames_def keys_collectHeaders)
qed

lemma index_collectHeaders: "index (collectHeaders hs []) name = lastValue hs name"
  by (simp add: index_def lastValue_def map_of_collectHeaders)

lemma collect_empty_iff: "collectHeaders hs [] = [] \<longleftrightarrow> matching hs = []"
proof -
  have "collectHeaders hs [] = [] \<longleftrightarrow> fst ` set (collectHeaders hs []) = {}"
    by simp
  also have "\<dots> \<longleftrightarrow> matching hs = []"
    by (simp add: keys_collectHeaders)
  finally show ?thesis .
qed

text \<open>The last loop joins the lines: the index \<^verbatim>\<open>i\<close> is that of the last key exactly
  when no key is left.\<close>

lemma writeHeaders_join:
  "i + length rest = length keys \<Longrightarrow>
   writeHeaders keys cm i rest ch =
     ch @ joinLines (map (\<lambda>key. key @ '':'' @ index cm key) rest)"
proof (induction rest arbitrary: i ch)
  case Nil
  then show ?case by simp
next
  case (Cons key rest)
  show ?case
  proof (cases rest)
    case Nil
    with Cons.prems show ?thesis by simp
  next
    case (Cons r rs)
    with Cons.prems have "int i \<noteq> int (length keys) - 1" by simp
    moreover have "Suc i + length rest = length keys" using Cons.prems by simp
    ultimately show ?thesis
      using Cons.IH [of "Suc i"] Cons by simp
  qed
qed

lemma canonicalHeader_join:
  "canonicalHeader hs = joinLines (map (\<lambda>name. name @ '':'' @ lastValue hs name) (keptNames hs))"
proof (cases "matching hs = []")
  case True
  then show ?thesis
    by (simp add: canonicalHeader_def collect_empty_iff keptNames_def)
next
  case False
  let ?cm = "collectHeaders hs []"
  have "canonicalHeader hs = writeHeaders (sort (map fst ?cm)) ?cm 0 (sort (map fst ?cm)) []"
    using False by (simp add: canonicalHeader_def Let_def collect_empty_iff)
  also have "\<dots> = joinLines (map (\<lambda>key. key @ '':'' @ index ?cm key) (sort (map fst ?cm)))"
    using writeHeaders_join [of 0 "sort (map fst ?cm)" "sort (map fst ?cm)" ?cm "[]"] by simp
  finally show ?thesis
    by (simp add: keys_sorted index_collectHeaders)
qed







section \<open>Properties of the canonical resource\<close>





lemma QueryEscape_comp: "QueryEscape ''comp'' = ''comp''"
  by code_simp

lemma Encode_comp: "Encode (Set [] ''comp'' v) = ''comp='' @ QueryEscape v"
  by (simp add: Encode_def Set_def valuesAt_def QueryEscape_comp)

text \<open>The three outcomes of \<^verbatim>\<open>canonicalResource\<close>, with the re-encoded query written
  out.\<close>

lemma canonicalResource_cases:
  "canonicalResource b u =
     (case snd (ParseQuery (RawQuery u)) of
        Some e \<Rightarrow> Inl (ParsingError e)
      | None \<Rightarrow>
          Inr (''/'' @ accountName b @ encodeComponents (Path u)
               @ (if Get (fst (ParseQuery (RawQuery u))) ''comp'' = [] then []
                  else ''?comp='' @ QueryEscape (Get (fst (ParseQuery (RawQuery u))) ''comp''))))"
  by (simp add: canonicalResource_def Let_def Encode_comp split: option.split)




text \<open>
  Claim C3, as the code has it. When the query string parses and the first value of
  its parameter \<^verbatim>\<open>comp\<close> is not empty, the result is the account and path followed by
  exactly \<^verbatim>\<open>?comp=\<close> and that value escaped again, whatever other parameters there are.
  When the query string parses and has no parameter \<^verbatim>\<open>comp\<close>, or the first value of
  \<^verbatim>\<open>comp\<close> is empty, the result is the account and path alone. When the query string does
  not parse, the call fails with the parsing error.
\<close>

theorem canonicalResource_comp:
  "(ParseQuery (RawQuery u) = (params, None) \<and> Get params ''comp'' \<noteq> [] \<longrightarrow>
      canonicalResource b u =
        Inr (''/'' @ accountName b @ encodeComponents (Path u)
             @ ''?comp='' @ QueryEscape (Get params ''comp'')))
   \<and> (ParseQuery (RawQuery u) = (params, None) \<and> Get params ''comp'' = [] \<longrightarrow>
      canonicalResource b u = Inr (''/'' @ accountName b @ encodeComponents (Path u)))
   \<and> (ParseQuery (RawQuery u) = (params, Some e) \<longrightarrow>
      canonicalResource b u = Inl (ParsingError e))"
  by (simp add: canonicalResource_cases)

text \<open>The three cases on the URLs of the signer's test and on a query string with a
  broken escape.\<close>

theorem canonicalResource_comp_witness:
  "ParseQuery ''a=b&c=d&comp=ok''
     = ([(''a'', [''b'']), (''c'', [''d'']), (''comp'', [''ok''])], None)
   \<and> canonicalResource \<lparr>accountName = ''foo''\<rparr> \<lparr>Path = ''/path'', RawQuery = ''a=b&c=d&comp=ok''\<rparr>
     = Inr ''/foo/path?comp=ok''
   \<and> ParseQuery ''a=b'' = ([(''a'', [''b''])], None)
   \<and> canonicalResource \<lparr>accountName = ''foo''\<rparr> \<lparr>Path = ''/cnt/blob'', RawQuery = ''a=b''\<rparr>
     = Inr ''/foo/cnt/blob''
   \<and> ParseQuery ''comp=%zz'' = ([], Some (EscapeError ''%zz''))
   \<and> canonicalResource \<lparr>accountName = ''foo''\<rparr> \<lparr>Path = ''/path'', RawQuery = ''comp=%zz''\<rparr>
     = Inl (ParsingError (EscapeError ''%zz''))"
proof -
  let ?b = "\<lparr>accountName = ''foo''\<rparr>"
  let ?u1 = "\<lparr>Path = ''/path'', RawQuery = ''a=b&c=d&comp=ok''\<rparr>"
  let ?p1 = "[(''a'', [''b'']), (''c'', [''d'']), (''comp'', [''ok''])]"
  let ?u2 = "\<lparr>Path = ''/cnt/blob'', RawQuery = ''a=b''\<rparr>"
  let ?p2 = "[(''a'', [''b''])]"
  let ?u3 = "\<lparr>Path = ''/path'', RawQuery = ''comp=%zz''\<rparr>"
  have q1: "ParseQuery ''a=b&c=d&comp=ok'' = (?p1, None)" by code_simp
  have g1: "Get ?p1 ''comp'' = ''ok''" by code_simp
  have q2: "ParseQuery ''a=b'' = (?p2, None)" by code_simp
  have g2: "Get ?p2 ''comp'' = []" by code_simp
  have q3: "ParseQuery ''comp=%zz'' = ([], Some (EscapeError ''%zz''))" by code_simp
  have e1: "encodeComponents ''/path'' = ''/path''" by code_simp
  have e2: "encodeComponents ''/cnt/blob'' = ''/cnt/blob''" by code_simp
  have e3: "QueryEscape ''ok'' = ''ok''" by code_simp
  have "canonicalResource ?b ?u1 = Inr ''/foo/path?comp=ok''"
    using canonicalResource_comp [of ?u1 ?p1 ?b] q1 g1 e1 e3 by simp
  moreover have "canonicalResource ?b ?u2 = Inr ''/foo/cnt/blob''"
    using canonicalResource_comp [of ?u2 ?p2 ?b] q2 g2 e2 by simp
  moreover have "canonicalResource ?b ?u3 = Inl (ParsingError (EscapeError ''%zz''))"
    using canonicalResource_comp [of ?u3 "[]" ?b "EscapeError ''%zz''"] q3 by simp
  ultimately show ?thesis using q1 q2 q3 by simp
qed

text \<open>
  The claim as worded fails for a parameter \<^verbatim>\<open>comp\<close> with the empty value: the query
  string \<^verbatim>\<open>comp=\<close> parses, it has the parameter \<^verbatim>\<open>comp\<close> with the value \<^verbatim>\<open>""\<close>, and the
  result does not end with \<^verbatim>\<open>?comp=\<close>.
\<close>

theorem canonicalResource_comp_counterexample:
  "ParseQuery ''comp='' = ([(''comp'', [[]])], None)
   \<and> canonicalResource \<lparr>accountName = ''foo''\<rparr> \<lparr>Path = ''/path'', RawQuery = ''comp=''\<rparr>
     = Inr ''/foo/path''"
  by code_simp

section \<open>Properties of the strings to sign\<close>

lemma index_missing:
  assumes "name \<notin> fst ` set headers"
  shows "index headers name = []"
proof -
  from assms have "map_of headers name = None"
    by (simp add: map_of_eq_None_iff)
  then show ?thesis by (simp add: index_def)
qed

text \<open>
  Claim C4. When the resource canonicalizes to \<^verbatim>\<open>cRes\<close>, the string to sign of the blob
  and queue signer is the six fields verb, value of \<^verbatim>\<open>Content-MD5\<close>, value of
  \<^verbatim>\<open>Content-Type\<close>, value of \<^verbatim>\<open>Date\<close>, canonical header block and canonical resource, in
  this order, with a line feed between two fields and none after the last. A header
  that the map does not have contributes the empty field, so the positions are fixed.
\<close>

theorem blobQueueSigner_six_fields:
  assumes "canonicalResource s u = Inr cRes"
  shows "blobQueueSigner_canonicalizedString s verb headers u
      = Inr (joinLines [verb, index headers ''Content-MD5'', index headers ''Content-Type'',
               index headers ''Date'', canonicalHeader headers, cRes])
    \<and> (\<forall>name. name \<notin> fst ` set headers \<longrightarrow> index headers name = [])"
  using assms by (simp add: blobQueueSigner_canonicalizedString_def index_missing)

theorem blobQueueSigner_six_fields_witness:
  "canonicalResource \<lparr>accountName = ''foo''\<rparr> \<lparr>Path = ''/cnt/blob'', RawQuery = ''comp=list''\<rparr>
     = Inr ''/foo/cnt/blob?comp=list''
   \<and> blobQueueSigner_canonicalizedString \<lparr>accountName = ''foo''\<rparr> ''PUT''
        [(''x-ms-version'', ''2014-02-14''), (''Content-Type'', ''text/plain'')]
        \<lparr>Path = ''/cnt/blob'', RawQuery = ''comp=list''\<rparr>
     = Inr (''PUT'' @ [newline] @ [newline] @ ''text/plain'' @ [newline] @ [newline]
            @ ''x-ms-version:2014-02-14'' @ [newline] @ ''/foo/cnt/blob?comp=list'')"
proof -
  let ?s = "\<lparr>accountName = ''foo''\<rparr>"
  let ?u = "\<lparr>Path = ''/cnt/blob'', RawQuery = ''comp=list''\<rparr>"
  let ?h = "[(''x-ms-version'', ''2014-02-14''), (''Content-Type'', ''text/plain'')]"
  have r: "canonicalResource ?s ?u = Inr ''/foo/cnt/blob?comp=list''"
    by code_simp
  have h: "canonicalHeader ?h = ''x-ms-version:2014-02-14''"
    by code_simp
  have i: "index ?h ''Content-MD5'' = []" "index ?h ''Content-Type'' = ''text/plain''"
    "index ?h ''Date'' = []"
    by (simp_all add: index_def)
  have "blobQueueSigner_canonicalizedString ?s ''PUT'' ?h ?u
      = Inr (joinLines [''PUT'', index ?h ''Content-MD5'', index ?h ''Content-Type'',
               index ?h ''Date'', canonicalHeader ?h, ''/foo/cnt/blob?comp=list''])"
    using blobQueueSigner_six_fields [OF r, of "''PUT''" ?h] by (rule conjunct1)
  then show ?thesis using r by (simp add: h i)
qed

text \<open>
  Claim C5. When the resource canonicalizes to \<^verbatim>\<open>cRes\<close>, the string to sign of the table
  signer is the value of the header \<^verbatim>\<open>x-ms-date\<close>, one line feed and \<^verbatim>\<open>cRes\<close>, with
  nothing after it. The verb, the other headers and the canonical header block have no
  part in it: any verb and any header map with the same value under \<^verbatim>\<open>x-ms-date\<close> give
  the same string.
\<close>

theorem tableSigner_two_lines:
  assumes "canonicalResource s u = Inr cRes"
  shows "tableSigner_canonicalizedString s verb headers u
      = Inr (index headers ''x-ms-date'' @ [newline] @ cRes)
    \<and> (\<forall>verb' headers'. index headers' ''x-ms-date'' = index headers ''x-ms-date'' \<longrightarrow>
          tableSigner_canonicalizedString s verb' headers' u
            = tableSigner_canonicalizedString s verb headers u)"
  using assms by (simp add: tableSigner_canonicalizedString_def)

theorem tableSigner_two_lines_witness:
  "canonicalResource \<lparr>accountName = ''foo''\<rparr> \<lparr>Path = ''/Tables'', RawQuery = []\<rparr>
     = Inr ''/foo/Tables''
   \<and> tableSigner_canonicalizedString \<lparr>accountName = ''foo''\<rparr> ''GET''
        [(''x-ms-version'', ''2014-02-14''), (''x-ms-date'', ''Sat, 31 Oct 2026 10:00:00 GMT''),
         (''Accept'', ''application/json;odata=nometadata'')]
        \<lparr>Path = ''/Tables'', RawQuery = []\<rparr>
     = Inr (''Sat, 31 Oct 2026 10:00:00 GMT'' @ [newline] @ ''/foo/Tables'')
   \<and> tableSigner_canonicalizedString \<lparr>accountName = ''foo''\<rparr> ''POST''
        [(''x-ms-date'', ''Sat, 31 Oct 2026 10:00:00 GMT''), (''Content-Type'', ''application/json'')]
        \<lparr>Path = ''/Tables'', RawQuery = []\<rparr>
     = Inr (''Sat, 31 Oct 2026 10:00:00 GMT'' @ [newline] @ ''/foo/Tables'')"
proof -
  let ?s = "\<lparr>accountName = ''foo''\<rparr>"
  let ?u = "\<lparr>Path = ''/Tables'', RawQuery = []\<rparr>"
  let ?h = "[(''x-ms-version'', ''2014-02-14''), (''x-ms-date'', ''Sat, 31 Oct 2026 10:00:00 GMT''),
             (''Accept'', ''application/json;odata=nometadata'')]"
  let ?h' = "[(''x-ms-date'', ''Sat, 31 Oct 2026 10:00:00 GMT''),
              (''Content-Type'', ''application/json'')]"
  have r: "canonicalResource ?s ?u = Inr ''/foo/Tables''"
    by code_simp
  have i: "index ?h ''x-ms-date'' = ''Sat, 31 Oct 2026 10:00:00 GMT''"
    by (simp add: index_def)
  have i': "index ?h' ''x-ms-date'' = index ?h ''x-ms-date''"
    by (simp add: index_def)
  note t = tableSigner_two_lines [OF r, of "''GET''" ?h]
  from t have a: "tableSigner_canonicalizedString ?s ''GET'' ?h ?u
      = Inr (index ?h ''x-ms-date'' @ [newline] @ ''/foo/Tables'')"
    by (rule conjunct1)
  from t i' have "tableSigner_canonicalizedString ?s ''POST'' ?h' ?u
      = tableSigner_canonicalizedString ?s ''GET'' ?h ?u"
    by blast
  with a r show ?thesis by (simp add: i)
qed

lemma headerName_X_Ms_Date: "headerName ''X-Ms-Date'' = ''x-ms-date''"
  by code_simp

lemma canonicalHeader_X_Ms_Date: "canonicalHeader [(''X-Ms-Date'', d)] = ''x-ms-date:'' @ d"
  by (simp add: canonicalHeader_join keptNames_def lastValue_def matching_def index_def
      headerName_X_Ms_Date)

text \<open>
  Claim C10. Both builders read their headers by the exact key. When the map has no
  key \<^verbatim>\<open>x-ms-date\<close>, the first line of the table string is empty; when it has no key
  \<^verbatim>\<open>Content-MD5\<close>, \<^verbatim>\<open>Content-Type\<close> or \<^verbatim>\<open>Date\<close>, the second, third or fourth field of the
  blob and queue string is empty. This holds also when the header is there under a key
  of another case, although the canonical header block takes a name of any case: a map
  with the one key \<^verbatim>\<open>X-Ms-Date\<close> gives the block \<^verbatim>\<open>x-ms-date:\<close> and the value.
\<close>

theorem canonicalizedString_exact_lookup:
  assumes "canonicalResource s u = Inr cRes"
  shows "(''x-ms-date'' \<notin> fst ` set headers \<longrightarrow>
          tableSigner_canonicalizedString s verb headers u = Inr ([newline] @ cRes))
    \<and> (''Content-MD5'' \<notin> fst ` set headers \<longrightarrow>
          blobQueueSigner_canonicalizedString s verb headers u
            = Inr (joinLines [verb, [], index headers ''Content-Type'', index headers ''Date'',
                     canonicalHeader headers, cRes]))
    \<and> (''Content-Type'' \<notin> fst ` set headers \<longrightarrow>
          blobQueueSigner_canonicalizedString s verb headers u
            = Inr (joinLines [verb, index headers ''Content-MD5'', [], index headers ''Date'',
                     canonicalHeader headers, cRes]))
    \<and> (''Date'' \<notin> fst ` set headers \<longrightarrow>
          blobQueueSigner_canonicalizedString s verb headers u
            = Inr (joinLines [verb, index headers ''Content-MD5'', index headers ''Content-Type'',
                     [], canonicalHeader headers, cRes]))
    \<and> canonicalHeader [(''X-Ms-Date'', d)] = ''x-ms-date:'' @ d"
  using assms
  by (simp add: tableSigner_canonicalizedString_def blobQueueSigner_canonicalizedString_def
      index_missing canonicalHeader_X_Ms_Date)

theorem canonicalizedString_exact_lookup_witness:
  "canonicalResource \<lparr>accountName = ''foo''\<rparr> \<lparr>Path = ''/Tables'', RawQuery = []\<rparr>
     = Inr ''/foo/Tables''
   \<and> ''x-ms-date'' \<notin> fst ` set [(''X-Ms-Date'', ''Sat, 31 Oct 2026 10:00:00 GMT'')]
   \<and> ''Date'' \<notin> fst ` set [(''X-Ms-Date'', ''Sat, 31 Oct 2026 10:00:00 GMT'')]
   \<and> tableSigner_canonicalizedString \<lparr>accountName = ''foo''\<rparr> ''GET''
        [(''X-Ms-Date'', ''Sat, 31 Oct 2026 10:00:00 GMT'')] \<lparr>Path = ''/Tables'', RawQuery = []\<rparr>
     = Inr ([newline] @ ''/foo/Tables'')
   \<and> blobQueueSigner_canonicalizedString \<lparr>accountName = ''foo''\<rparr> ''GET''
        [(''X-Ms-Date'', ''Sat, 31 Oct 2026 10:00:00 GMT'')] \<lparr>Path = ''/Tables'', RawQuery = []\<rparr>
     = Inr (''GET'' @ [newline] @ [newline] @ [newline] @ [newline]
            @ ''x-ms-date:Sat, 31 Oct 2026 10:00:00 GMT'' @ [newline] @ ''/foo/Tables'')"
proof -
  let ?s = "\<lparr>accountName = ''foo''\<rparr>"
  let ?u = "\<lparr>Path = ''/Tables'', RawQuery = []\<rparr>"
  let ?h = "[(''X-Ms-Date'', ''Sat, 31 Oct 2026 10:00:00 GMT'')]"
  have r: "canonicalResource ?s ?u = Inr ''/foo/Tables''"
    by code_simp
  have n1: "''x-ms-date'' \<notin> fst ` set ?h" and n2: "''Date'' \<notin> fst ` set ?h"
    by simp_all
  have i: "index ?h ''Content-MD5'' = []" "index ?h ''Content-Type'' = []"
    by (simp_all add: index_def)
  note t = canonicalizedString_exact_lookup
    [OF r, of ?h "''GET''" "''Sat, 31 Oct 2026 10:00:00 GMT''"]
  from t n1 have a: "tableSigner_canonicalizedString ?s ''GET'' ?h ?u
      = Inr ([newline] @ ''/foo/Tables'')"
    by blast
  from t have c: "canonicalHeader ?h = ''x-ms-date:'' @ ''Sat, 31 Oct 2026 10:00:00 GMT''"
    by blast
  from t n2 have "blobQueueSigner_canonicalizedString ?s ''GET'' ?h ?u
      = Inr (joinLines [''GET'', index ?h ''Content-MD5'', index ?h ''Content-Type'',
               [], canonicalHeader ?h, ''/foo/Tables''])"
    by blast
  then have b: "blobQueueSigner_canonicalizedString ?s ''GET'' ?h ?u
      = Inr (''GET'' @ [newline] @ [newline] @ [newline] @ [newline]
             @ ''x-ms-date:Sat, 31 Oct 2026 10:00:00 GMT'' @ [newline] @ ''/foo/Tables'')"
    by (simp add: i c)
  from r n1 n2 a b show ?thesis by blast
qed

section \<open>Properties of the table entities\<close>






text \<open>
  Steps 3 to 5 in general. An accepted value is a struct that the two library functions
  take, and its serialization is the indented text of the map of step 2 with the tags
  added. Where no two annotated fields have the same sidecar key, the object has, for
  every annotated field, the key \<^verbatim>\<open>jsonName\<close> of the field followed by \<^verbatim>\<open>@odata.type\<close>, with
  the annotation as its value.
\<close>

lemma scanFields_Cons:
  "scanFields (f # fs) extras =
     (if index (Tag f) ''odata.type'' \<noteq> []
      then scanFields fs (assign extras (jsonName f @ ''@odata.type'') (index (Tag f) ''odata.type''))
      else scanFields fs extras)"
  by (simp add: Let_def)

lemma map_of_scanFields:
  "map_of (scanFields fs extras) = map_of (rev (sidecars fs) @ extras)"
proof (induction fs arbitrary: extras)
  case Nil
  show ?case by (simp add: sidecars_def)
next
  case (Cons f fs)
  show ?case
    unfolding scanFields_Cons
    by (simp add: Cons.IH sidecars_def assign_def update_conv' map_add_def fun_eq_iff
        split: option.split)
qed

lemma map_of_addTags:
  "map_of (addTags extras m) k =
     (case map_of (rev extras) k of Some v \<Rightarrow> Some (JString v) | None \<Rightarrow> map_of m k)"
proof (induction extras arbitrary: m)
  case Nil
  show ?case by simp
next
  case (Cons p extras)
  obtain k' v' where p: "p = (k', v')" by (cases p)
  show ?case
    by (simp add: p Cons.IH update_conv' map_add_def split: option.split)
qed

lemma distinct_scanFields:
  "distinct (map fst extras) \<Longrightarrow> distinct (map fst (scanFields fs extras))"
proof (induction fs arbitrary: extras)
  case Nil
  then show ?case by simp
next
  case (Cons f fs)
  show ?case
    unfolding scanFields_Cons
    using Cons.prems by (simp add: Cons.IH assign_def distinct_update)
qed

lemma map_of_rev_distinct:
  assumes "distinct (map fst xs)" and "map_of xs k = Some v"
  shows "map_of (rev xs) k = Some v"
proof -
  from assms(2) have "(k, v) \<in> set (rev xs)"
    by (auto dest: map_of_SomeD)
  moreover from assms(1) have "distinct (map fst (rev xs))"
    by (simp add: rev_map [symmetric])
  ultimately show ?thesis
    by (simp add: map_of_is_SomeI)
qed

lemma sidecar_in_object:
  assumes "distinct (map fst (sidecars fs))"
    and "f \<in> set fs" and "index (Tag f) ''odata.type'' \<noteq> []"
  shows "(jsonName f @ ''@odata.type'', JString (index (Tag f) ''odata.type''))
           \<in> set (addTags (scanFields fs []) m)"
proof -
  let ?k = "jsonName f @ ''@odata.type''"
  let ?v = "index (Tag f) ''odata.type''"
  from assms(2,3) have "(?k, ?v) \<in> set (sidecars fs)"
    by (simp add: sidecars_def image_iff) blast
  with assms(1) have "map_of (sidecars fs) ?k = Some ?v"
    by (simp add: map_of_is_SomeI)
  with assms(1) have "map_of (rev (sidecars fs)) ?k = Some ?v"
    by (rule map_of_rev_distinct)
  then have "map_of (scanFields fs []) ?k = Some ?v"
    by (simp add: map_of_scanFields)
  moreover have "distinct (map fst (scanFields fs []))"
    by (rule distinct_scanFields) simp
  ultimately have "map_of (rev (scanFields fs [])) ?k = Some ?v"
    by (simp add: map_of_rev_distinct)
  then have "map_of (addTags (scanFields fs []) m) ?k = Some (JString ?v)"
    by (simp add: map_of_addTags)
  then show ?thesis
    by (rule map_of_SomeD)
qed

lemma StructTableEntity_accepted:
  assumes "StructTableEntity_jsonMarshal Marshal Unmarshal Val = Inr bytes"
  shows "\<exists>v b m. Val = Some v \<and> typeKind v = Struct \<and> Marshal v = Inr b \<and> Unmarshal b = Inr m
           \<and> bytes = MarshalIndent (addTags (scanFields (typeFields v) []) m)"
proof (cases Val)
  case None
  with assms show ?thesis by (simp add: StructTableEntity_jsonMarshal_def)
next
  case (Some v)
  show ?thesis
  proof (cases "typeKind v = Struct")
    case False
    with assms Some show ?thesis by (simp add: StructTableEntity_jsonMarshal_def)
  next
    case True
    show ?thesis
    proof (cases "Marshal v")
      case (Inl err)
      with assms Some True show ?thesis by (simp add: StructTableEntity_jsonMarshal_def)
    next
      case (Inr b)
      show ?thesis
      proof (cases "Unmarshal b")
        case (Inl err)
        with assms Some True Inr show ?thesis by (simp add: StructTableEntity_jsonMarshal_def)
      next
        case m: (Inr m)
        with assms Some True Inr show ?thesis by (simp add: StructTableEntity_jsonMarshal_def)
      qed
    qed
  qed
qed

text \<open>
  Claim C6 fails on the code. A field declared as
  \<^verbatim>\<open>Age int64 `json:",omitempty" odata.type:"Edm.Int64"`\<close> has a \<^verbatim>\<open>json\<close> tag that gives
  options and no name, so its serialized name is the declared name \<^verbatim>\<open>Age\<close>, and the
  claim asks for the key \<^verbatim>\<open>Age@odata.type\<close>. \<^verbatim>\<open>jsonName\<close> returns the part of the tag before
  the comma, which is empty, and the object gets the key \<^verbatim>\<open>@odata.type\<close> instead.
\<close>

theorem StructTableEntity_sidecar_omitempty:
  "jsonName \<lparr>Name = ''Age'', Tag = [(''json'', '',omitempty''), (''odata.type'', ''Edm.Int64'')]\<rparr>
     = []
   \<and> addTags
        (scanFields
          [\<lparr>Name = ''Age'', Tag = [(''json'', '',omitempty''), (''odata.type'', ''Edm.Int64'')]\<rparr>] [])
        [(''Age'', JNumber ''255'')]
     = [(''Age'', JNumber ''255''), (''@odata.type'', JString ''Edm.Int64'')]
   \<and> StructTableEntity_jsonMarshal
        (\<lambda>v. Inr (''{'' @ [CHR 0x22] @ ''Age'' @ [CHR 0x22] @ '':255}''))
        (\<lambda>b. Inr [(''Age'', JNumber ''255'')])
        (Some \<lparr>typeKind = Struct, typeFields =
           [\<lparr>Name = ''Age'', Tag = [(''json'', '',omitempty''), (''odata.type'', ''Edm.Int64'')]\<rparr>]\<rparr>)
     = Inr (''{'' @ [newline, CHR 0x09, CHR 0x22] @ ''@odata.type'' @ [CHR 0x22] @ '': ''
            @ [CHR 0x22] @ ''Edm.Int64'' @ [CHR 0x22] @ '','' @ [newline, CHR 0x09, CHR 0x22]
            @ ''Age'' @ [CHR 0x22] @ '': 255'' @ [newline] @ ''}'')"
  by code_simp

text \<open>
  Claim C9. A wrapped value that is absent, or whose type is not of the struct kind, is
  refused with an error before anything is serialized: the result is the error, never
  bytes, whatever the two library functions would do.
\<close>

theorem StructTableEntity_rejects:
  "StructTableEntity_jsonMarshal Marshal Unmarshal None = Inl NilStructValue
   \<and> (typeKind v \<noteq> Struct \<longrightarrow>
        StructTableEntity_jsonMarshal Marshal Unmarshal (Some v) = Inl NotAStruct)"
  by (simp add: StructTableEntity_jsonMarshal_def)

theorem StructTableEntity_rejects_witness:
  "typeKind \<lparr>typeKind = Ptr, typeFields = []\<rparr> \<noteq> Struct
   \<and> StructTableEntity_jsonMarshal (\<lambda>v. Inr ''null'') (\<lambda>b. Inr []) None = Inl NilStructValue
   \<and> StructTableEntity_jsonMarshal (\<lambda>v. Inr ''null'') (\<lambda>b. Inr [])
        (Some \<lparr>typeKind = Ptr, typeFields = []\<rparr>) = Inl NotAStruct"
proof -
  have k: "typeKind \<lparr>typeKind = Ptr, typeFields = []\<rparr> \<noteq> Struct"
    by simp
  note t = StructTableEntity_rejects
    [of "\<lambda>v. Inr ''null''" "\<lambda>b. Inr []" "\<lparr>typeKind = Ptr, typeFields = []\<rparr>"]
  from t k show ?thesis by blast
qed

section \<open>Properties of the error decoders\<close>



end
